theory Spec2Isabelle
  imports
    Complex_Main
    "HOL-Library.Multiset"
    "HOL-Library.Char_ord"
    "HOL-Library.List_Lexorder"
    "HOL-Library.Product_Lexorder"
begin

section \<open>Data model: cells, rows and frames\<close>

text \<open>
  The dashboard reads a CSV file into a pandas frame. A cell of the frame is a text,
  an empty cell (pandas' missing value, the float \<open>nan\<close>) or an integer (an integer
  column of the file, and the derived column \<open>vehicle_match\<close>).
\<close>

datatype cell = Str string | NaN | Num int

text \<open>The exceptions the modelled code can raise.\<close>

datatype exn = KeyError | ValueError | TypeError

text \<open>
  A frame has its column labels and its rows; every row carries a value for every column
  of the frame, and the value of a row at a label that is not a column is never read.
  A row handed to a row-wise function is a pandas Series: the labels together with the
  values.
\<close>

record dataframe =
  columns :: "string list"
  rows :: "(string \<Rightarrow> cell) list"

type_synonym series = "string list \<times> (string \<Rightarrow> cell)"

text \<open>\<open>row[c]\<close> raises KeyError on an absent label; \<open>row.get(c, d)\<close> returns the default.\<close>

definition getitem :: "series \<Rightarrow> string \<Rightarrow> exn + cell" where
  "getitem row c = (if c \<in> set (fst row) then Inr (snd row c) else Inl KeyError)"

definition get :: "series \<Rightarrow> string \<Rightarrow> cell \<Rightarrow> cell" where
  "get row c d = (if c \<in> set (fst row) then snd row c else d)"

text \<open>\<open>df[c]\<close> reads a column, \<open>df[c] = vs\<close> writes one (appending the label when new).\<close>

definition getcol :: "dataframe \<Rightarrow> string \<Rightarrow> exn + cell list" where
  "getcol df c =
     (if c \<in> set (columns df) then Inr (map (\<lambda>r. r c) (rows df)) else Inl KeyError)"

definition setcol :: "dataframe \<Rightarrow> string \<Rightarrow> cell list \<Rightarrow> dataframe" where
  "setcol df c vs =
     \<lparr> columns = (if c \<in> set (columns df) then columns df else columns df @ [c]),
       rows = map2 (\<lambda>r v. r(c := v)) (rows df) vs \<rparr>"

subsection \<open>Python's \<open>str\<close> and \<open>in\<close>\<close>

fun digits :: "nat \<Rightarrow> string" where
  "digits n =
     (if n < 10 then [char_of (48 + n)] else digits (n div 10) @ [char_of (48 + n mod 10)])"

declare digits.simps [simp del]

fun py_str :: "cell \<Rightarrow> string" where
  "py_str (Str s) = s"
| "py_str NaN = ''nan''"
| "py_str (Num i) = (if i < 0 then CHR ''-'' # digits (nat (- i)) else digits (nat i))"

text \<open>\<open>p in s\<close> on two strings: \<open>p\<close> occurs in \<open>s\<close> as a contiguous block.\<close>

fun startswith :: "string \<Rightarrow> string \<Rightarrow> bool" where
  "startswith s [] = True"
| "startswith [] (p # ps) = False"
| "startswith (c # cs) (p # ps) = (c = p \<and> startswith cs ps)"

fun py_in :: "string \<Rightarrow> string \<Rightarrow> bool" where
  "py_in p [] = (p = [])"
| "py_in p (c # cs) = (startswith (c # cs) p \<or> py_in p cs)"

section \<open>Attribution (\<open>load_and_process_data\<close>)\<close>

text \<open>
  \<^verbatim>\<open>
  def get_adhoc_owner(row):
      if row['actual_billing_basis'] != 'Adhoc': return 'N/A'
      reason = str(row.get('adhoc_trip_creation_reason', ''))
      return 'Vendor Issue' if 'VENDOR' in reason else 'Zepto Issue'
  \<close>
\<close>

definition get_adhoc_owner :: "series \<Rightarrow> exn + string" where
  "get_adhoc_owner row =
     (case getitem row ''actual_billing_basis'' of
        Inl e \<Rightarrow> Inl e
      | Inr b \<Rightarrow>
          if b \<noteq> Str ''Adhoc'' then Inr ''N/A''
          else let reason = py_str (get row ''adhoc_trip_creation_reason'' (Str ''''))
               in Inr (if py_in ''VENDOR'' reason then ''Vendor Issue'' else ''Zepto Issue''))"

definition vendor_cancel_codes :: "string list" where
  "vendor_cancel_codes =
     [''PLANNED_VEHICLE_NOT_PROVIDED_BY_VENDOR'', ''VEHICLE_UNAVAILABILITY'',
      ''PLANNED_VEHICLE_BREAKDOWN'', ''TRANSPORT_VENDOR_ISSUE'']"

text \<open>
  \<^verbatim>\<open>
  def get_cancel_owner(row):
      if row['trip_status'] != 'CANCELLED': return 'N/A'
      code = str(row.get('cancellation_reason_code', ''))
      return 'Vendor Issue' if code in vendor_cancel_codes else 'Zepto Issue'
  \<close>
\<close>

definition get_cancel_owner :: "series \<Rightarrow> exn + string" where
  "get_cancel_owner row =
     (case getitem row ''trip_status'' of
        Inl e \<Rightarrow> Inl e
      | Inr s \<Rightarrow>
          if s \<noteq> Str ''CANCELLED'' then Inr ''N/A''
          else let code = py_str (get row ''cancellation_reason_code'' (Str ''''))
               in Inr (if code \<in> set vendor_cancel_codes then ''Vendor Issue''
                       else ''Zepto Issue''))"

text \<open>
  \<open>df.apply(f, axis=1)\<close> calls \<open>f\<close> on every row in turn; the first exception ends
  the call. On a frame without rows pandas calls \<open>f\<close> once on a row of empty cells to
  learn the shape of the result: when that call returns, the result is an empty column;
  when it raises, the exception is swallowed, the frame itself is the result, and
  storing it as one column raises ValueError.
\<close>

fun collect :: "(exn + 'a) list \<Rightarrow> exn + 'a list" where
  "collect [] = Inr []"
| "collect (r # rs) =
     (case r of
        Inl e \<Rightarrow> Inl e
      | Inr v \<Rightarrow> (case collect rs of Inl e \<Rightarrow> Inl e | Inr vs \<Rightarrow> Inr (v # vs)))"

definition apply_axis1 :: "(series \<Rightarrow> exn + string) \<Rightarrow> dataframe \<Rightarrow> exn + cell list" where
  "apply_axis1 f df =
     (if rows df = [] then
        (case f (columns df, \<lambda>_. NaN) of Inl _ \<Rightarrow> Inl ValueError | Inr _ \<Rightarrow> Inr [])
      else collect (map (\<lambda>r. map_sum id Str (f (columns df, r))) (rows df)))"

text \<open>
  \<open>planned == actual\<close> on two columns, cell by cell: an empty cell equals nothing,
  not even another empty cell.
\<close>

definition series_eq :: "cell \<Rightarrow> cell \<Rightarrow> bool" where
  "series_eq a b = (a \<noteq> NaN \<and> a = b)"

text \<open>
  The frame read from the newest CSV file is the argument \<open>df\<close>. The date parser
  \<open>pd.to_datetime(...).dt.date\<close> is a parameter \<open>to_date\<close>: it answers None where
  pandas raises on a text that is no date, and one value per cell otherwise.
  \<^verbatim>\<open>
  df['trip_date'] = pd.to_datetime(df['trip_date']).dt.date
  df['vehicle_match'] = (df['planned_vehicle_type'] == df['actual_vehicle_type']).astype(int)
  df['adhoc_owner'] = df.apply(get_adhoc_owner, axis=1)
  df['cancel_owner'] = df.apply(get_cancel_owner, axis=1)
  return df
  \<close>
\<close>

definition load_and_process_data ::
  "(cell list \<Rightarrow> cell list option) \<Rightarrow> dataframe \<Rightarrow> exn + dataframe" where
  "load_and_process_data to_date df =
     (case getcol df ''trip_date'' of
        Inl e \<Rightarrow> Inl e
      | Inr ds \<Rightarrow>
     (case to_date ds of
        None \<Rightarrow> Inl ValueError
      | Some ds' \<Rightarrow>
     if length ds' \<noteq> length ds then Inl ValueError else
     let df1 = setcol df ''trip_date'' ds' in
     (case getcol df1 ''planned_vehicle_type'' of
        Inl e \<Rightarrow> Inl e
      | Inr ps \<Rightarrow>
     (case getcol df1 ''actual_vehicle_type'' of
        Inl e \<Rightarrow> Inl e
      | Inr acs \<Rightarrow>
     let df2 = setcol df1 ''vehicle_match''
                 (map2 (\<lambda>p a. Num (if series_eq p a then 1 else 0)) ps acs) in
     (case apply_axis1 get_adhoc_owner df2 of
        Inl e \<Rightarrow> Inl e
      | Inr os \<Rightarrow>
     let df3 = setcol df2 ''adhoc_owner'' os in
     (case apply_axis1 get_cancel_owner df3 of
        Inl e \<Rightarrow> Inl e
      | Inr cs \<Rightarrow> Inr (setcol df3 ''cancel_owner'' cs)))))))"

section \<open>Numbers of the summaries\<close>

text \<open>
  A rate is a Python or numpy float: a finite value, \<open>nan\<close> or \<open>inf\<close>. The finite
  values are kept as exact ratios; the rounding of the machine float and the rendering
  \<open>f"{x:.1f}%"\<close> applied to it afterwards are outside this development.
\<close>

datatype pyfloat = Fin rat | Nan | Inf

text \<open>
  \<open>a / b\<close> on two numpy integers (the results of \<open>.sum()\<close> on a mask): a zero divisor
  gives \<open>nan\<close> or \<open>inf\<close> with a warning, not an exception.
\<close>

definition np_div :: "nat \<Rightarrow> nat \<Rightarrow> pyfloat" where
  "np_div a b = (if b = 0 then (if a = 0 then Nan else Inf) else Fin (of_nat a / of_nat b))"

fun times100 :: "pyfloat \<Rightarrow> pyfloat" where
  "times100 (Fin q) = Fin (q * 100)"
| "times100 Nan = Nan"
| "times100 Inf = Inf"

text \<open>\<open>(a/b*100 if b > 0 else 0)\<close> on two Python integers (results of \<open>len\<close>).\<close>

definition guarded_rate :: "nat \<Rightarrow> nat \<Rightarrow> pyfloat" where
  "guarded_rate a b = (if b > 0 then Fin (of_nat a / of_nat b * 100) else Fin 0)"

text \<open>
  \<open>x.mean()\<close> on a column: empty cells are skipped, a text cell raises TypeError, and
  the mean of no value at all is \<open>nan\<close>.
\<close>

fun is_text :: "cell \<Rightarrow> bool" where
  "is_text (Str s) = True"
| "is_text c = False"

fun nums :: "cell list \<Rightarrow> int list" where
  "nums [] = []"
| "nums (Num i # cs) = i # nums cs"
| "nums (c # cs) = nums cs"

definition series_mean :: "cell list \<Rightarrow> exn + pyfloat" where
  "series_mean xs =
     (if list_ex is_text xs then Inl TypeError
      else if nums xs = [] then Inr Nan
      else Inr (Fin (of_int (sum_list (nums xs)) / of_nat (length (nums xs)))))"

section \<open>Fleet scorecards\<close>

text \<open>
  \<^verbatim>\<open>
  total = len(df)
  planned = len(df[df['actual_billing_basis'] == 'Planned'])
  exec_planned = len(df[(df['actual_billing_basis'] == 'Planned') & (df['trip_status'] == 'COMPLETED')])
  adhocs = len(df[df['actual_billing_basis'] == 'Adhoc'])
  cancels = len(df[df['trip_status'] == 'CANCELLED'])
  k2: exec_planned/planned*100 if planned > 0 else 0
  k3: adhocs/total*100 if total > 0 else 0
  k4: cancels/total*100 if total > 0 else 0
  k5: df['vehicle_match'].mean()*100
  \<close>
\<close>

record kpis =
  total_trips :: nat
  plan_execution :: pyfloat
  adhoc_rate :: pyfloat
  cancel_rate :: pyfloat
  vehicle_compliance :: pyfloat

definition kpi_scorecards :: "dataframe \<Rightarrow> exn + kpis" where
  "kpi_scorecards df =
     (if ''actual_billing_basis'' \<notin> set (columns df) then Inl KeyError
      else if ''trip_status'' \<notin> set (columns df) then Inl KeyError
      else
        let total = length (rows df);
            planned = length (filter (\<lambda>r. r ''actual_billing_basis'' = Str ''Planned'') (rows df));
            exec_planned = length (filter (\<lambda>r. r ''actual_billing_basis'' = Str ''Planned''
                                  \<and> r ''trip_status'' = Str ''COMPLETED'') (rows df));
            adhocs = length (filter (\<lambda>r. r ''actual_billing_basis'' = Str ''Adhoc'') (rows df));
            cancels = length (filter (\<lambda>r. r ''trip_status'' = Str ''CANCELLED'') (rows df))
        in (case getcol df ''vehicle_match'' of
              Inl e \<Rightarrow> Inl e
            | Inr vm \<Rightarrow>
           (case series_mean vm of
              Inl e \<Rightarrow> Inl e
            | Inr m \<Rightarrow>
                Inr \<lparr> total_trips = total,
                      plan_execution = guarded_rate exec_planned planned,
                      adhoc_rate = guarded_rate adhocs total,
                      cancel_rate = guarded_rate cancels total,
                      vehicle_compliance = times100 m \<rparr>)))"

section \<open>Grouping\<close>

text \<open>
  \<open>df.groupby(c)\<close> makes one group for every distinct value of the column, leaves
  out the rows whose cell is empty, and orders the groups by their value: numbers
  before texts, texts by code point.
\<close>

fun cell_key :: "cell \<Rightarrow> nat \<times> int \<times> string" where
  "cell_key (Num i) = (0, i, [])"
| "cell_key (Str s) = (1, 0, s)"
| "cell_key NaN = (2, 0, [])"

definition group_keys :: "cell list \<Rightarrow> cell list" where
  "group_keys vs = sort_key cell_key (remdups (filter (\<lambda>v. v \<noteq> NaN) vs))"

definition group_rows :: "dataframe \<Rightarrow> string \<Rightarrow> cell \<Rightarrow> (string \<Rightarrow> cell) list" where
  "group_rows df c k = filter (\<lambda>r. r c = k) (rows df)"

section \<open>Mother hub table (\<open>summary_table\<close>)\<close>

text \<open>
  \<^verbatim>\<open>
  summary_table = df.groupby('source_mh_name').agg(
      Total=('master_trip_code', 'count'),
      Plan_Success_Rate=('trip_status', lambda x: f"{( ((df.loc[x.index, 'actual_billing_basis'] == 'Planned') & (x == 'COMPLETED')).sum() / (df.loc[x.index, 'actual_billing_basis'] == 'Planned').sum() * 100):.1f}%"),
      Adhoc_Zepto=('adhoc_owner', lambda x: (x == 'Zepto Issue').sum()),
      Adhoc_Vendor=('adhoc_owner', lambda x: (x == 'Vendor Issue').sum()),
      Cancel_Zepto=('cancel_owner', lambda x: (x == 'Zepto Issue').sum()),
      Cancel_Vendor=('cancel_owner', lambda x: (x == 'Vendor Issue').sum()),
      Vehicle_Compliance=('vehicle_match', lambda x: f"{(x.mean()*100):.1f}%")
  ).reset_index()
  \<close>
  \<open>count\<close> is the number of cells of the group that are not empty.
\<close>

record hub_summary =
  source_mh_name :: cell
  Total :: nat
  Plan_Success_Rate :: pyfloat
  Adhoc_Zepto :: nat
  Adhoc_Vendor :: nat
  Cancel_Zepto :: nat
  Cancel_Vendor :: nat
  Vehicle_Compliance :: pyfloat

definition hub_row :: "dataframe \<Rightarrow> cell \<Rightarrow> exn + hub_summary" where
  "hub_row df k =
     (let g = group_rows df ''source_mh_name'' k in
      if ''actual_billing_basis'' \<notin> set (columns df) then Inl KeyError
      else
        (case series_mean (map (\<lambda>r. r ''vehicle_match'') g) of
           Inl e \<Rightarrow> Inl e
         | Inr m \<Rightarrow>
             Inr \<lparr> source_mh_name = k,
                   Total = length (filter (\<lambda>r. r ''master_trip_code'' \<noteq> NaN) g),
                   Plan_Success_Rate =
                     times100
                       (np_div
                          (length (filter (\<lambda>r. r ''actual_billing_basis'' = Str ''Planned''
                                     \<and> r ''trip_status'' = Str ''COMPLETED'') g))
                          (length (filter (\<lambda>r. r ''actual_billing_basis'' = Str ''Planned'') g))),
                   Adhoc_Zepto = length (filter (\<lambda>r. r ''adhoc_owner'' = Str ''Zepto Issue'') g),
                   Adhoc_Vendor = length (filter (\<lambda>r. r ''adhoc_owner'' = Str ''Vendor Issue'') g),
                   Cancel_Zepto = length (filter (\<lambda>r. r ''cancel_owner'' = Str ''Zepto Issue'') g),
                   Cancel_Vendor = length (filter (\<lambda>r. r ''cancel_owner'' = Str ''Vendor Issue'') g),
                   Vehicle_Compliance = times100 m \<rparr>))"

definition summary_table :: "dataframe \<Rightarrow> exn + hub_summary list" where
  "summary_table df =
     (case getcol df ''source_mh_name'' of
        Inl e \<Rightarrow> Inl e
      | Inr hubs \<Rightarrow>
          if \<not> set [''master_trip_code'', ''trip_status'', ''adhoc_owner'', ''cancel_owner'',
                    ''vehicle_match''] \<subseteq> set (columns df)
          then Inl KeyError
          else collect (map (hub_row df) (group_keys hubs)))"

section \<open>Vendor table (\<open>vendor_stats\<close>)\<close>

text \<open>
  \<^verbatim>\<open>
  vendor_stats = df.groupby('actual_vendor').agg(
      Adhocs=('actual_billing_basis', lambda x: (x == 'Adhoc').sum()),
      Cancellations=('trip_status', lambda x: (x == 'CANCELLED').sum())
  ).reset_index()
  vendor_stats['Total_Failures'] = vendor_stats['Adhocs'] + vendor_stats['Cancellations']
  \<close>
\<close>

record vendor_summary =
  actual_vendor :: cell
  Adhocs :: nat
  Cancellations :: nat
  Total_Failures :: nat

definition vendor_row :: "dataframe \<Rightarrow> cell \<Rightarrow> vendor_summary" where
  "vendor_row df k =
     (let g = group_rows df ''actual_vendor'' k;
          a = length (filter (\<lambda>r. r ''actual_billing_basis'' = Str ''Adhoc'') g);
          c = length (filter (\<lambda>r. r ''trip_status'' = Str ''CANCELLED'') g)
      in \<lparr> actual_vendor = k, Adhocs = a, Cancellations = c, Total_Failures = a + c \<rparr>)"

definition vendor_stats :: "dataframe \<Rightarrow> exn + vendor_summary list" where
  "vendor_stats df =
     (case getcol df ''actual_vendor'' of
        Inl e \<Rightarrow> Inl e
      | Inr vendors \<Rightarrow>
          if \<not> set [''actual_billing_basis'', ''trip_status''] \<subseteq> set (columns df)
          then Inl KeyError
          else Inr (map (vendor_row df) (group_keys vendors)))"

section \<open>Ordering a table (\<open>sort_values(by, ascending=False)\<close>)\<close>





section \<open>The wording of the specification, for comparison\<close>

text \<open>
  The specification reads the adhoc reason without regard to case; the two definitions
  below say what that means for texts in the ASCII range.
\<close>

definition upper_char :: "char \<Rightarrow> char" where
  "upper_char c =
     (case map_of (zip ''abcdefghijklmnopqrstuvwxyz'' ''ABCDEFGHIJKLMNOPQRSTUVWXYZ'') c of
        Some u \<Rightarrow> u
      | None \<Rightarrow> c)"

definition contains_ignoring_case :: "string \<Rightarrow> string \<Rightarrow> bool" where
  "contains_ignoring_case p s = py_in (map upper_char p) (map upper_char s)"


section \<open>Sample batches\<close>

text \<open>
  A trip with every column filled, all on one day and with matching vehicle types; the
  witnesses below run the code on small batches of such trips.
\<close>

definition trip_columns :: "string list" where
  "trip_columns =
     [''master_trip_code'', ''trip_date'', ''source_mh_name'', ''actual_billing_basis'',
      ''trip_status'', ''adhoc_trip_creation_reason'', ''cancellation_reason_code'',
      ''planned_vehicle_type'', ''actual_vehicle_type'', ''actual_vendor'']"

definition trip :: "string \<Rightarrow> string \<Rightarrow> string \<Rightarrow> string \<Rightarrow> string \<Rightarrow> string \<Rightarrow> cell" where
  "trip code hub basis status vendor =
     (\<lambda>_. NaN)
       (''master_trip_code'' := Str code, ''trip_date'' := Str ''2024-01-01'',
        ''source_mh_name'' := Str hub, ''actual_billing_basis'' := Str basis,
        ''trip_status'' := Str status, ''planned_vehicle_type'' := Str ''truck'',
        ''actual_vehicle_type'' := Str ''truck'', ''actual_vendor'' := Str vendor)"

definition two_trips :: dataframe where
  "two_trips =
     \<lparr> columns = trip_columns,
       rows = [trip ''T1'' ''B'' ''Adhoc'' ''CANCELLED'' ''V2'',
               trip ''T2'' ''A'' ''Planned'' ''COMPLETED'' ''V1''] \<rparr>"

text \<open>Two trips of one hub; the second has no trip code and no billing basis.\<close>

definition trips_with_gaps :: dataframe where
  "trips_with_gaps =
     \<lparr> columns = trip_columns,
       rows = [trip ''T1'' ''A'' ''Planned'' ''COMPLETED'' ''V1'',
               (trip ''T2'' ''A'' ''Adhoc'' ''COMPLETED'' ''V1'')
                 (''master_trip_code'' := NaN, ''actual_billing_basis'' := NaN)] \<rparr>"

text \<open>A batch read from a file in which one column is absent.\<close>

definition without_column :: "string \<Rightarrow> dataframe \<Rightarrow> dataframe" where
  "without_column c df = df \<lparr> columns := filter (\<lambda>x. x \<noteq> c) (columns df) \<rparr>"



section \<open>Properties of the attribution\<close>

text \<open>\<open>p in s\<close> holds exactly when \<open>s\<close> is some text, then \<open>p\<close>, then some text.\<close>

lemma startswith_iff: "startswith s p \<longleftrightarrow> (\<exists>b. s = p @ b)"
  by (induction s p rule: startswith.induct) auto

lemma py_in_iff: "py_in p s \<longleftrightarrow> (\<exists>a b. s = a @ p @ b)"
proof (induction s)
  case Nil
  then show ?case by auto
next
  case (Cons c cs)
  show ?case
  proof
    assume "py_in p (c # cs)"
    then consider "startswith (c # cs) p" | "py_in p cs" by auto
    then show "\<exists>a b. c # cs = a @ p @ b"
    proof cases
      case 1
      then obtain b where "c # cs = p @ b" by (auto simp: startswith_iff)
      then have "c # cs = [] @ p @ b" by simp
      then show ?thesis by blast
    next
      case 2
      then obtain a b where "cs = a @ p @ b" using Cons.IH by blast
      then have "c # cs = (c # a) @ p @ b" by simp
      then show ?thesis by blast
    qed
  next
    assume "\<exists>a b. c # cs = a @ p @ b"
    then obtain a b where ab: "c # cs = a @ p @ b" by blast
    show "py_in p (c # cs)"
    proof (cases a)
      case Nil
      with ab have "startswith (c # cs) p" by (auto simp: startswith_iff)
      then show ?thesis by simp
    next
      case (Cons a0 as)
      with ab have "cs = as @ p @ b" by simp
      then have "py_in p cs" using Cons.IH by blast
      then show ?thesis by simp
    qed
  qed
qed

text \<open>
  Claim C2, as the code has it. For a row that has the column \<open>actual_billing_basis\<close>:
  when the basis is not \<open>Adhoc\<close> the adhoc owner is \<open>N/A\<close>; when it is \<open>Adhoc\<close>
  the owner is \<open>Vendor Issue\<close> exactly when the text of the adhoc reason contains
  \<open>VENDOR\<close> in these very capital letters, and \<open>Zepto Issue\<close> otherwise, also
  when the reason column is absent or the cell is empty.
\<close>

theorem get_adhoc_owner_case_sensitive:
  assumes "''actual_billing_basis'' \<in> set cols"
  shows "get_adhoc_owner (cols, vals) =
           Inr (if vals ''actual_billing_basis'' \<noteq> Str ''Adhoc'' then ''N/A''
                else if (\<exists>a b. py_str (get (cols, vals) ''adhoc_trip_creation_reason'' (Str ''''))
                                  = a @ ''VENDOR'' @ b)
                     then ''Vendor Issue'' else ''Zepto Issue'')
         \<and> (vals ''actual_billing_basis'' = Str ''Adhoc''
              \<and> (''adhoc_trip_creation_reason'' \<notin> set cols
                   \<or> vals ''adhoc_trip_creation_reason'' = NaN
                   \<or> vals ''adhoc_trip_creation_reason'' = Str '''')
            \<longrightarrow> get_adhoc_owner (cols, vals) = Inr ''Zepto Issue'')"
proof -
  let ?reason = "py_str (get (cols, vals) ''adhoc_trip_creation_reason'' (Str ''''))"
  have main: "get_adhoc_owner (cols, vals) =
           Inr (if vals ''actual_billing_basis'' \<noteq> Str ''Adhoc'' then ''N/A''
                else if py_in ''VENDOR'' ?reason then ''Vendor Issue'' else ''Zepto Issue'')"
    using assms by (simp add: get_adhoc_owner_def getitem_def)
  have missing: "\<not> py_in ''VENDOR'' ?reason"
    if "''adhoc_trip_creation_reason'' \<notin> set cols
          \<or> vals ''adhoc_trip_creation_reason'' = NaN
          \<or> vals ''adhoc_trip_creation_reason'' = Str ''''"
  proof -
    from that have "?reason = '''' \<or> ?reason = ''nan''"
      by (auto simp: get_def)
    then show ?thesis
      by (elim disjE) simp_all
  qed
  have first: "get_adhoc_owner (cols, vals) =
           Inr (if vals ''actual_billing_basis'' \<noteq> Str ''Adhoc'' then ''N/A''
                else if (\<exists>a b. ?reason = a @ ''VENDOR'' @ b)
                     then ''Vendor Issue'' else ''Zepto Issue'')"
    unfolding main py_in_iff ..
  have second: "get_adhoc_owner (cols, vals) = Inr ''Zepto Issue''"
    if "vals ''actual_billing_basis'' = Str ''Adhoc''"
      and "''adhoc_trip_creation_reason'' \<notin> set cols
          \<or> vals ''adhoc_trip_creation_reason'' = NaN
          \<or> vals ''adhoc_trip_creation_reason'' = Str ''''"
    using main missing [OF that(2)] that(1) by simp
  show ?thesis
    using first second by blast
qed

text \<open>Scenario 1 of the specification, and an Adhoc row without any reason column.\<close>

theorem get_adhoc_owner_case_sensitive_witness:
  "get_adhoc_owner ([''actual_billing_basis'', ''adhoc_trip_creation_reason''],
       (\<lambda>_. NaN)(''actual_billing_basis'' := Str ''Adhoc'',
                  ''adhoc_trip_creation_reason'' := Str ''VENDOR_DELAY'')) = Inr ''Vendor Issue''
   \<and> get_adhoc_owner ([''actual_billing_basis''],
       (\<lambda>_. NaN)(''actual_billing_basis'' := Str ''Adhoc'')) = Inr ''Zepto Issue''"
proof -
  let ?cols = "[''actual_billing_basis'', ''adhoc_trip_creation_reason'']"
  let ?vals = "(\<lambda>_. NaN)(''actual_billing_basis'' := Str ''Adhoc'',
                  ''adhoc_trip_creation_reason'' := Str ''VENDOR_DELAY'')"
  have h1: "''actual_billing_basis'' \<in> set ?cols"
    by simp
  have h2: "''actual_billing_basis'' \<in> set [''actual_billing_basis'']"
    by simp
  have g: "py_str (get (?cols, ?vals) ''adhoc_trip_creation_reason'' (Str '''')) = ''VENDOR_DELAY''"
    by (simp add: get_def)
  have "py_in ''VENDOR'' ''VENDOR_DELAY''"
    by simp
  then have v: "\<exists>a b. py_str (get (?cols, ?vals) ''adhoc_trip_creation_reason'' (Str ''''))
                  = a @ ''VENDOR'' @ b"
    unfolding g py_in_iff .
  have b: "?vals ''actual_billing_basis'' = Str ''Adhoc''"
    by simp
  have first: "get_adhoc_owner (?cols, ?vals) = Inr ''Vendor Issue''"
    using get_adhoc_owner_case_sensitive [OF h1, of ?vals] v b
    by presburger
  have second: "get_adhoc_owner ([''actual_billing_basis''],
       (\<lambda>_. NaN)(''actual_billing_basis'' := Str ''Adhoc'')) = Inr ''Zepto Issue''"
    using get_adhoc_owner_case_sensitive
      [OF h2, of "(\<lambda>_. NaN)(''actual_billing_basis'' := Str ''Adhoc'')", THEN conjunct2]
    by simp
  show ?thesis
    using first second by blast
qed

text \<open>
  Claim C2 as stated fails: the reason \<open>Vendor delay\<close> contains the token when case
  is ignored, and the code answers \<open>Zepto Issue\<close>.
\<close>

theorem get_adhoc_owner_lower_case_reason:
  "get_adhoc_owner ([''actual_billing_basis'', ''adhoc_trip_creation_reason''],
       (\<lambda>_. NaN)(''actual_billing_basis'' := Str ''Adhoc'',
                  ''adhoc_trip_creation_reason'' := Str ''Vendor delay'')) = Inr ''Zepto Issue''
   \<and> contains_ignoring_case ''VENDOR'' ''Vendor delay''"
  by (simp add: get_adhoc_owner_def getitem_def get_def contains_ignoring_case_def upper_char_def)

text \<open>
  Claim C3. For a row that has the column \<open>trip_status\<close>: when the status is not
  \<open>CANCELLED\<close> the cancel owner is \<open>N/A\<close>; when it is, the owner is
  \<open>Vendor Issue\<close> exactly when the cancellation reason code is one of the four vendor
  codes, and \<open>Zepto Issue\<close> otherwise, also when the code column is absent or the
  cell is empty.
\<close>

theorem get_cancel_owner_codes:
  assumes "''trip_status'' \<in> set cols"
  shows "get_cancel_owner (cols, vals) =
           Inr (if vals ''trip_status'' \<noteq> Str ''CANCELLED'' then ''N/A''
                else if py_str (get (cols, vals) ''cancellation_reason_code'' (Str ''''))
                          \<in> {''PLANNED_VEHICLE_NOT_PROVIDED_BY_VENDOR'', ''VEHICLE_UNAVAILABILITY'',
                              ''PLANNED_VEHICLE_BREAKDOWN'', ''TRANSPORT_VENDOR_ISSUE''}
                     then ''Vendor Issue'' else ''Zepto Issue'')
         \<and> (vals ''trip_status'' = Str ''CANCELLED''
              \<and> (''cancellation_reason_code'' \<notin> set cols
                   \<or> vals ''cancellation_reason_code'' = NaN
                   \<or> vals ''cancellation_reason_code'' = Str '''')
            \<longrightarrow> get_cancel_owner (cols, vals) = Inr ''Zepto Issue'')"
proof -
  let ?code = "py_str (get (cols, vals) ''cancellation_reason_code'' (Str ''''))"
  have main: "get_cancel_owner (cols, vals) =
           Inr (if vals ''trip_status'' \<noteq> Str ''CANCELLED'' then ''N/A''
                else if ?code \<in> set vendor_cancel_codes then ''Vendor Issue'' else ''Zepto Issue'')"
    using assms by (simp add: get_cancel_owner_def getitem_def)
  have codes: "set vendor_cancel_codes =
      {''PLANNED_VEHICLE_NOT_PROVIDED_BY_VENDOR'', ''VEHICLE_UNAVAILABILITY'',
       ''PLANNED_VEHICLE_BREAKDOWN'', ''TRANSPORT_VENDOR_ISSUE''}"
    by (simp add: vendor_cancel_codes_def)
  have missing: "?code \<notin> set vendor_cancel_codes"
    if "''cancellation_reason_code'' \<notin> set cols
          \<or> vals ''cancellation_reason_code'' = NaN
          \<or> vals ''cancellation_reason_code'' = Str ''''"
  proof -
    from that have "?code = '''' \<or> ?code = ''nan''"
      by (auto simp: get_def)
    then show ?thesis
      by (elim disjE) (simp_all add: vendor_cancel_codes_def)
  qed
  have second: "get_cancel_owner (cols, vals) = Inr ''Zepto Issue''"
    if "vals ''trip_status'' = Str ''CANCELLED''"
      and "''cancellation_reason_code'' \<notin> set cols
          \<or> vals ''cancellation_reason_code'' = NaN
          \<or> vals ''cancellation_reason_code'' = Str ''''"
    using main missing [OF that(2)] that(1) by simp
  show ?thesis
    using main second unfolding codes by blast
qed

text \<open>Scenarios 3 and 4 of the specification, and a completed trip.\<close>

theorem get_cancel_owner_codes_witness:
  "get_cancel_owner ([''trip_status'', ''cancellation_reason_code''],
       (\<lambda>_. NaN)(''trip_status'' := Str ''CANCELLED'',
                  ''cancellation_reason_code'' := Str ''VEHICLE_UNAVAILABILITY'')) = Inr ''Vendor Issue''
   \<and> get_cancel_owner ([''trip_status'', ''cancellation_reason_code''],
       (\<lambda>_. NaN)(''trip_status'' := Str ''CANCELLED'',
                  ''cancellation_reason_code'' := Str '''')) = Inr ''Zepto Issue''
   \<and> get_cancel_owner ([''trip_status'', ''cancellation_reason_code''],
       (\<lambda>_. NaN)(''trip_status'' := Str ''COMPLETED'')) = Inr ''N/A''"
proof -
  let ?cols = "[''trip_status'', ''cancellation_reason_code'']"
  have h: "''trip_status'' \<in> set ?cols"
    by simp
  have a: "get_cancel_owner (?cols, (\<lambda>_. NaN)(''trip_status'' := Str ''CANCELLED'',
                  ''cancellation_reason_code'' := Str ''VEHICLE_UNAVAILABILITY'')) = Inr ''Vendor Issue''"
    using get_cancel_owner_codes [OF h, of "(\<lambda>_. NaN)(''trip_status'' := Str ''CANCELLED'',
                  ''cancellation_reason_code'' := Str ''VEHICLE_UNAVAILABILITY'')"]
    by (simp add: get_def)
  have b: "get_cancel_owner (?cols, (\<lambda>_. NaN)(''trip_status'' := Str ''CANCELLED'',
                  ''cancellation_reason_code'' := Str '''')) = Inr ''Zepto Issue''"
    using get_cancel_owner_codes [OF h, of "(\<lambda>_. NaN)(''trip_status'' := Str ''CANCELLED'',
                  ''cancellation_reason_code'' := Str '''')"]
    by (simp add: get_def)
  have c: "get_cancel_owner (?cols, (\<lambda>_. NaN)(''trip_status'' := Str ''COMPLETED'')) = Inr ''N/A''"
    using get_cancel_owner_codes [OF h, of "(\<lambda>_. NaN)(''trip_status'' := Str ''COMPLETED'')"]
    by (simp add: get_def)
  show ?thesis
    using a b c by blast
qed

section \<open>Properties of the enriched batch\<close>

lemma collect_Inr:
  "collect rs = Inr vs \<Longrightarrow> length vs = length rs \<and> (\<forall>i<length rs. rs ! i = Inr (vs ! i))"
proof (induction rs arbitrary: vs)
  case Nil
  then show ?case by simp
next
  case (Cons r rs)
  from Cons.prems obtain v vs' where r: "r = Inr v" and c: "collect rs = Inr vs'" and vs: "vs = v # vs'"
    by (auto split: sum.splits)
  from Cons.IH [OF c] have ih: "length vs' = length rs" "\<forall>i<length rs. rs ! i = Inr (vs' ! i)"
    by simp_all
  show ?case
    using r vs ih by (auto simp: nth_Cons split: nat.splits)
qed

lemma collect_Inl: "collect rs = Inl e \<Longrightarrow> Inl e \<in> set rs"
  by (induction rs) (auto split: sum.splits)

lemma length_rows_setcol:
  "length vs = length (rows df) \<Longrightarrow> length (rows (setcol df c vs)) = length (rows df)"
  by (simp add: setcol_def)

lemma nth_rows_setcol:
  "length vs = length (rows df) \<Longrightarrow> i < length (rows df) \<Longrightarrow>
     rows (setcol df c vs) ! i = (rows df ! i)(c := vs ! i)"
  by (simp add: setcol_def)

lemma columns_setcol: "set (columns (setcol df c vs)) = insert c (set (columns df))"
  by (auto simp: setcol_def)

lemma apply_axis1_Inr:
  assumes "apply_axis1 f df = Inr vs"
  shows "length vs = length (rows df)
         \<and> (\<forall>i<length (rows df). \<exists>s. f (columns df, rows df ! i) = Inr s \<and> vs ! i = Str s)"
proof (cases "rows df = []")
  case True
  with assms show ?thesis
    by (auto simp: apply_axis1_def split: sum.splits)
next
  case False
  with assms have c: "collect (map (\<lambda>r. map_sum id Str (f (columns df, r))) (rows df)) = Inr vs"
    by (simp add: apply_axis1_def)
  from collect_Inr [OF c]
  have len: "length vs = length (rows df)"
    and nth: "\<forall>i<length (rows df). map_sum id Str (f (columns df, rows df ! i)) = Inr (vs ! i)"
    by simp_all
  have "\<exists>s. f (columns df, rows df ! i) = Inr s \<and> vs ! i = Str s" if "i < length (rows df)" for i
  proof -
    from nth that have "map_sum id Str (f (columns df, rows df ! i)) = Inr (vs ! i)"
      by blast
    then show ?thesis
      by (cases "f (columns df, rows df ! i)") auto
  qed
  with len show ?thesis by blast
qed

lemma apply_axis1_Inl:
  assumes "apply_axis1 f df = Inl e" and "\<And>r e'. f r = Inl e' \<Longrightarrow> e' = KeyError"
  shows "e = KeyError \<or> e = ValueError"
proof (cases "rows df = []")
  case True
  with assms(1) show ?thesis
    by (auto simp: apply_axis1_def split: sum.splits)
next
  case False
  with assms(1) have "collect (map (\<lambda>r. map_sum id Str (f (columns df, r))) (rows df)) = Inl e"
    by (simp add: apply_axis1_def)
  from collect_Inl [OF this] obtain r where "map_sum id Str (f (columns df, r)) = Inl e"
    by auto
  then have "f (columns df, r) = Inl e"
    by (cases "f (columns df, r)") auto
  with assms(2) show ?thesis by blast
qed

lemma apply_axis1_all_fail:
  assumes "\<And>v. f (columns df, v) = Inl KeyError"
  shows "apply_axis1 f df = Inl KeyError \<or> apply_axis1 f df = Inl ValueError"
proof (cases "rows df")
  case Nil
  then show ?thesis
    by (simp add: apply_axis1_def assms)
next
  case (Cons r rs)
  then show ?thesis
    by (simp add: apply_axis1_def assms)
qed

lemma get_adhoc_owner_Inl: "get_adhoc_owner r = Inl e \<Longrightarrow> e = KeyError"
  by (auto simp: get_adhoc_owner_def getitem_def Let_def split: if_splits)

lemma get_cancel_owner_Inl: "get_cancel_owner r = Inl e \<Longrightarrow> e = KeyError"
  by (auto simp: get_cancel_owner_def getitem_def Let_def split: if_splits)

lemma get_adhoc_owner_absent:
  "''actual_billing_basis'' \<notin> set cols \<Longrightarrow> get_adhoc_owner (cols, v) = Inl KeyError"
  by (simp add: get_adhoc_owner_def getitem_def)

lemma get_cancel_owner_absent:
  "''trip_status'' \<notin> set cols \<Longrightarrow> get_cancel_owner (cols, v) = Inl KeyError"
  by (simp add: get_cancel_owner_def getitem_def)

lemma get_adhoc_owner_NA:
  "get_adhoc_owner (cols, v) = Inr s \<Longrightarrow> (s \<noteq> ''N/A'') = (v ''actual_billing_basis'' = Str ''Adhoc'')"
  by (auto simp: get_adhoc_owner_def getitem_def Let_def split: if_splits)

text \<open>What a successful run of \<open>load_and_process_data\<close> leaves in every row.\<close>

lemma load_and_process_data_rows:
  assumes ok: "load_and_process_data to_date df = Inr df'"
  shows "length (rows df') = length (rows df)"
    and "i < length (rows df) \<Longrightarrow>
         \<exists>d m s c cols2 cols3.
           rows df' ! i = (rows df ! i)(''trip_date'' := d, ''vehicle_match'' := m,
                                        ''adhoc_owner'' := Str s, ''cancel_owner'' := Str c)
           \<and> get_adhoc_owner (cols2, (rows df ! i)(''trip_date'' := d, ''vehicle_match'' := m)) = Inr s
           \<and> get_cancel_owner (cols3, (rows df ! i)(''trip_date'' := d, ''vehicle_match'' := m,
                                        ''adhoc_owner'' := Str s)) = Inr c"
proof -
  let ?n = "length (rows df)"
  from ok obtain ds ds' ps acs os cs where
    ds: "getcol df ''trip_date'' = Inr ds" and
    td: "to_date ds = Some ds'" and
    len: "length ds' = length ds" and
    ps: "getcol (setcol df ''trip_date'' ds') ''planned_vehicle_type'' = Inr ps" and
    acs: "getcol (setcol df ''trip_date'' ds') ''actual_vehicle_type'' = Inr acs" and
    os: "apply_axis1 get_adhoc_owner
           (setcol (setcol df ''trip_date'' ds') ''vehicle_match''
              (map2 (\<lambda>p a. Num (if series_eq p a then 1 else 0)) ps acs)) = Inr os" and
    cs: "apply_axis1 get_cancel_owner
           (setcol (setcol (setcol df ''trip_date'' ds') ''vehicle_match''
              (map2 (\<lambda>p a. Num (if series_eq p a then 1 else 0)) ps acs)) ''adhoc_owner'' os) = Inr cs" and
    df': "df' = setcol (setcol (setcol (setcol df ''trip_date'' ds') ''vehicle_match''
              (map2 (\<lambda>p a. Num (if series_eq p a then 1 else 0)) ps acs)) ''adhoc_owner'' os)
              ''cancel_owner'' cs"
    by (auto simp: load_and_process_data_def Let_def split: sum.splits option.splits if_splits)
  let ?df1 = "setcol df ''trip_date'' ds'"
  let ?ms = "map2 (\<lambda>p a. Num (if series_eq p a then 1 else 0)) ps acs"
  let ?df2 = "setcol ?df1 ''vehicle_match'' ?ms"
  let ?df3 = "setcol ?df2 ''adhoc_owner'' os"
  have lds: "length ds' = ?n"
    using ds len by (auto simp: getcol_def split: if_splits)
  have l1: "length (rows ?df1) = ?n"
    using lds by (simp add: length_rows_setcol)
  have lps: "length ps = ?n" "length acs = ?n"
    using ps acs l1 by (auto simp: getcol_def split: if_splits)
  then have lms: "length ?ms = length (rows ?df1)"
    using l1 by simp
  have l2: "length (rows ?df2) = ?n"
    using length_rows_setcol [OF lms] l1 by simp
  from apply_axis1_Inr [OF os]
  have los: "length os = length (rows ?df2)"
    and nos: "\<forall>i<length (rows ?df2). \<exists>s. get_adhoc_owner (columns ?df2, rows ?df2 ! i) = Inr s \<and> os ! i = Str s"
    by blast+
  have l3: "length (rows ?df3) = ?n"
    using length_rows_setcol [OF los] l2 by simp
  from apply_axis1_Inr [OF cs]
  have lcs: "length cs = length (rows ?df3)"
    and ncs: "\<forall>i<length (rows ?df3). \<exists>c. get_cancel_owner (columns ?df3, rows ?df3 ! i) = Inr c \<and> cs ! i = Str c"
    by blast+
  show "length (rows df') = ?n"
    unfolding df' using length_rows_setcol [OF lcs] l3 by simp
  show "\<exists>d m s c cols2 cols3.
           rows df' ! i = (rows df ! i)(''trip_date'' := d, ''vehicle_match'' := m,
                                        ''adhoc_owner'' := Str s, ''cancel_owner'' := Str c)
           \<and> get_adhoc_owner (cols2, (rows df ! i)(''trip_date'' := d, ''vehicle_match'' := m)) = Inr s
           \<and> get_cancel_owner (cols3, (rows df ! i)(''trip_date'' := d, ''vehicle_match'' := m,
                                        ''adhoc_owner'' := Str s)) = Inr c"
    if i: "i < ?n"
  proof -
    have r1: "rows ?df1 ! i = (rows df ! i)(''trip_date'' := ds' ! i)"
      using nth_rows_setcol [of ds' df i] lds i by simp
    have r2: "rows ?df2 ! i = (rows df ! i)(''trip_date'' := ds' ! i, ''vehicle_match'' := ?ms ! i)"
      using nth_rows_setcol [OF lms, of i] l1 i r1 by simp
    from nos i l2 obtain s where
      s: "get_adhoc_owner (columns ?df2, rows ?df2 ! i) = Inr s" "os ! i = Str s"
      by auto
    have r3: "rows ?df3 ! i = (rows ?df2 ! i)(''adhoc_owner'' := Str s)"
      using nth_rows_setcol [OF los, of i] l2 i s(2) by simp
    from ncs i l3 obtain c where
      c: "get_cancel_owner (columns ?df3, rows ?df3 ! i) = Inr c" "cs ! i = Str c"
      by auto
    have r4: "rows df' ! i = (rows ?df3 ! i)(''cancel_owner'' := Str c)"
      unfolding df' using nth_rows_setcol [OF lcs, of i] l3 i c(2) by simp
    show ?thesis
      using r4 s(1) c(1) unfolding r3 r2 by blast
  qed
qed

text \<open>
  Claim C6. In the batch that \<open>load_and_process_data\<close> returns, the adhoc owner of a
  record differs from \<open>N/A\<close> if and only if the billing basis of the record is
  \<open>Adhoc\<close>.
\<close>

theorem enriched_adhoc_owner_iff_adhoc:
  assumes "load_and_process_data to_date df = Inr df'" and "r \<in> set (rows df')"
  shows "(r ''adhoc_owner'' \<noteq> Str ''N/A'') = (r ''actual_billing_basis'' = Str ''Adhoc'')"
proof -
  from assms(2) obtain i where i: "i < length (rows df')" and r: "r = rows df' ! i"
    by (auto simp: in_set_conv_nth)
  from i have i': "i < length (rows df)"
    using load_and_process_data_rows(1) [OF assms(1)] by simp
  from load_and_process_data_rows(2) [OF assms(1) i'] obtain d m s c cols2 cols3 where
    row: "r = (rows df ! i)(''trip_date'' := d, ''vehicle_match'' := m,
                             ''adhoc_owner'' := Str s, ''cancel_owner'' := Str c)" and
    own: "get_adhoc_owner (cols2, (rows df ! i)(''trip_date'' := d, ''vehicle_match'' := m)) = Inr s"
    unfolding r by blast
  from get_adhoc_owner_NA [OF own]
  have "(s \<noteq> ''N/A'') = ((rows df ! i) ''actual_billing_basis'' = Str ''Adhoc'')"
    by simp
  then show ?thesis
    unfolding row by simp
qed

text \<open>The code run on the batch \<open>two_trips\<close>, with a date parser that accepts every cell.\<close>

lemmas sample_defs = two_trips_def trip_columns_def trip_def

lemmas run_defs = load_and_process_data_def getcol_def setcol_def apply_axis1_def
  get_adhoc_owner_def get_cancel_owner_def getitem_def get_def series_eq_def
  vendor_cancel_codes_def

lemma two_trips_enriched:
  "\<not> isl (load_and_process_data Some two_trips)"
  "map (\<lambda>r. (r ''adhoc_owner'', r ''actual_billing_basis''))
        (rows (projr (load_and_process_data Some two_trips)))
     = [(Str ''Zepto Issue'', Str ''Adhoc''), (Str ''N/A'', Str ''Planned'')]"
  by (simp_all add: run_defs sample_defs)

text \<open>The two records of \<open>two_trips\<close>: one Adhoc with an owner, one Planned with \<open>N/A\<close>.\<close>

theorem enriched_adhoc_owner_iff_adhoc_witness:
  "\<not> isl (load_and_process_data Some two_trips)
   \<and> map (\<lambda>r. (r ''adhoc_owner'', r ''actual_billing_basis''))
        (rows (projr (load_and_process_data Some two_trips)))
     = [(Str ''Zepto Issue'', Str ''Adhoc''), (Str ''N/A'', Str ''Planned'')]"
proof -
  let ?d = "projr (load_and_process_data Some two_trips)"
  have run: "load_and_process_data Some two_trips = Inr ?d"
    using two_trips_enriched(1) by simp
  have "length (map (\<lambda>r. (r ''adhoc_owner'', r ''actual_billing_basis'')) (rows ?d)) = 2"
    unfolding two_trips_enriched(2) by simp
  then have len: "length (rows ?d) = 2"
    by simp
  then have mem: "rows ?d ! 0 \<in> set (rows ?d)"
    by simp
  have "map (\<lambda>r. (r ''adhoc_owner'', r ''actual_billing_basis'')) (rows ?d) ! 0
          = (Str ''Zepto Issue'', Str ''Adhoc'')"
    unfolding two_trips_enriched(2) by simp
  then have b0: "(rows ?d ! 0) ''actual_billing_basis'' = Str ''Adhoc''"
    using len by simp
  have "(rows ?d ! 0) ''adhoc_owner'' \<noteq> Str ''N/A''"
    using enriched_adhoc_owner_iff_adhoc [OF run mem] b0 by simp
  then show ?thesis
    using two_trips_enriched by blast
qed

section \<open>Absent columns and empty cells\<close>

lemma getcol_Inr_iff: "(\<exists>vs. getcol df c = Inr vs) \<longleftrightarrow> c \<in> set (columns df)"
  by (auto simp: getcol_def)

lemma apply_axis1_Inr_probe:
  assumes "apply_axis1 f df = Inr vs"
  shows "\<exists>v s. f (columns df, v) = Inr s"
proof (cases "rows df")
  case Nil
  with assms show ?thesis
    by (auto simp: apply_axis1_def split: sum.splits)
next
  case (Cons r rs)
  with assms have "collect (map_sum id Str (f (columns df, r)) # map (\<lambda>r. map_sum id Str (f (columns df, r))) rs) = Inr vs"
    by (simp add: apply_axis1_def)
  then obtain s where "f (columns df, r) = Inr s"
    by (cases "f (columns df, r)") (auto split: sum.splits)
  then show ?thesis by blast
qed

lemma load_and_process_data_columns:
  assumes ok: "load_and_process_data to_date df = Inr df'"
  shows "{''trip_date'', ''planned_vehicle_type'', ''actual_vehicle_type'',
          ''actual_billing_basis'', ''trip_status''} \<subseteq> set (columns df)"
proof -
  from ok obtain ds ds' ps acs os cs where
    ds: "getcol df ''trip_date'' = Inr ds" and
    ps: "getcol (setcol df ''trip_date'' ds') ''planned_vehicle_type'' = Inr ps" and
    acs: "getcol (setcol df ''trip_date'' ds') ''actual_vehicle_type'' = Inr acs" and
    os: "apply_axis1 get_adhoc_owner
           (setcol (setcol df ''trip_date'' ds') ''vehicle_match''
              (map2 (\<lambda>p a. Num (if series_eq p a then 1 else 0)) ps acs)) = Inr os" and
    cs: "apply_axis1 get_cancel_owner
           (setcol (setcol (setcol df ''trip_date'' ds') ''vehicle_match''
              (map2 (\<lambda>p a. Num (if series_eq p a then 1 else 0)) ps acs)) ''adhoc_owner'' os) = Inr cs"
    by (auto simp: load_and_process_data_def Let_def split: sum.splits option.splits if_splits)
  have c1: "''trip_date'' \<in> set (columns df)"
    using ds getcol_Inr_iff by blast
  have "''planned_vehicle_type'' \<in> set (columns (setcol df ''trip_date'' ds'))"
    using ps getcol_Inr_iff by blast
  then have c2: "''planned_vehicle_type'' \<in> set (columns df)"
    by (simp add: columns_setcol)
  have "''actual_vehicle_type'' \<in> set (columns (setcol df ''trip_date'' ds'))"
    using acs getcol_Inr_iff by blast
  then have c3: "''actual_vehicle_type'' \<in> set (columns df)"
    by (simp add: columns_setcol)
  from apply_axis1_Inr_probe [OF os] obtain v s where
    "get_adhoc_owner (columns (setcol (setcol df ''trip_date'' ds') ''vehicle_match''
              (map2 (\<lambda>p a. Num (if series_eq p a then 1 else 0)) ps acs)), v) = Inr s"
    by blast
  then have "''actual_billing_basis'' \<in> set (columns (setcol (setcol df ''trip_date'' ds') ''vehicle_match''
              (map2 (\<lambda>p a. Num (if series_eq p a then 1 else 0)) ps acs)))"
    using get_adhoc_owner_absent by fastforce
  then have c4: "''actual_billing_basis'' \<in> set (columns df)"
    by (simp add: columns_setcol)
  from apply_axis1_Inr_probe [OF cs] obtain v s where
    "get_cancel_owner (columns (setcol (setcol (setcol df ''trip_date'' ds') ''vehicle_match''
              (map2 (\<lambda>p a. Num (if series_eq p a then 1 else 0)) ps acs)) ''adhoc_owner'' os), v) = Inr s"
    by blast
  then have "''trip_status'' \<in> set (columns (setcol (setcol (setcol df ''trip_date'' ds') ''vehicle_match''
              (map2 (\<lambda>p a. Num (if series_eq p a then 1 else 0)) ps acs)) ''adhoc_owner'' os))"
    using get_cancel_owner_absent by fastforce
  then have c5: "''trip_status'' \<in> set (columns df)"
    by (simp add: columns_setcol)
  show ?thesis
    using c1 c2 c3 c4 c5 by simp
qed

lemma load_and_process_data_Inl:
  assumes "load_and_process_data to_date df = Inl e"
  shows "e = KeyError \<or> e = ValueError"
  using assms
  by (auto simp: load_and_process_data_def getcol_def Let_def
           split: sum.splits option.splits if_splits
           dest: apply_axis1_Inl [OF _ get_adhoc_owner_Inl] apply_axis1_Inl [OF _ get_cancel_owner_Inl])

text \<open>
  A stage looks a column up by name and reads no other column, so a column that a stage
  does not read can be absent without changing what the stage computes.
\<close>

lemma kpi_scorecards_without_column:
  assumes "c \<notin> {''actual_billing_basis'', ''trip_status'', ''vehicle_match''}"
  shows "kpi_scorecards (without_column c df) = kpi_scorecards df"
proof -
  from assms have "''actual_billing_basis'' \<noteq> c" "''trip_status'' \<noteq> c" "''vehicle_match'' \<noteq> c"
    by auto
  then show ?thesis
    by (simp add: kpi_scorecards_def getcol_def without_column_def)
qed

lemma summary_table_without_column:
  assumes "c \<notin> {''source_mh_name'', ''master_trip_code'', ''trip_status'', ''adhoc_owner'',
                 ''cancel_owner'', ''vehicle_match'', ''actual_billing_basis''}"
  shows "summary_table (without_column c df) = summary_table df"
proof -
  from assms have c: "''source_mh_name'' \<noteq> c" "''master_trip_code'' \<noteq> c"
    "''trip_status'' \<noteq> c" "''adhoc_owner'' \<noteq> c" "''cancel_owner'' \<noteq> c"
    "''vehicle_match'' \<noteq> c" "''actual_billing_basis'' \<noteq> c"
    by auto
  have "hub_row (without_column c df) = hub_row df"
    using c by (intro ext) (simp add: hub_row_def group_rows_def without_column_def)
  with c show ?thesis
    by (simp add: summary_table_def getcol_def without_column_def)
qed

text \<open>
  Claim C9, as the code has it. The code checks no record and knows no
  \<open>MissingFieldError\<close>; what fails is the stage that reads a column absent from the
  batch. When \<open>trip_date\<close>, \<open>planned_vehicle_type\<close>, \<open>actual_vehicle_type\<close>,
  \<open>actual_billing_basis\<close> or \<open>trip_status\<close> is absent, \<open>load_and_process_data\<close> raises
  KeyError or ValueError and returns no batch. When \<open>source_mh_name\<close> or
  \<open>master_trip_code\<close> is absent the hub table raises KeyError, and when \<open>actual_vendor\<close>
  is absent the vendor table does. The failure of one stage does not withhold the others:
  the fleet scorecards are what they are for the batch with the column, whether
  \<open>master_trip_code\<close> or \<open>actual_vendor\<close> is absent, and so is the hub table when
  \<open>actual_vendor\<close> is absent. (An empty cell in such a column raises nothing: see below.)
\<close>

theorem absent_column_raises:
  "(c \<in> {''trip_date'', ''planned_vehicle_type'', ''actual_vehicle_type'',
          ''actual_billing_basis'', ''trip_status''} \<and> c \<notin> set (columns df)
      \<longrightarrow> load_and_process_data to_date df = Inl KeyError
          \<or> load_and_process_data to_date df = Inl ValueError)
   \<and> (c \<in> {''source_mh_name'', ''master_trip_code''} \<and> c \<notin> set (columns df)
      \<longrightarrow> summary_table df = Inl KeyError)
   \<and> (c = ''actual_vendor'' \<and> c \<notin> set (columns df) \<longrightarrow> vendor_stats df = Inl KeyError)
   \<and> kpi_scorecards (without_column ''master_trip_code'' df) = kpi_scorecards df
   \<and> kpi_scorecards (without_column ''actual_vendor'' df) = kpi_scorecards df
   \<and> summary_table (without_column ''actual_vendor'' df) = summary_table df"
proof (intro conjI impI)
  assume a: "c \<in> {''trip_date'', ''planned_vehicle_type'', ''actual_vehicle_type'',
          ''actual_billing_basis'', ''trip_status''} \<and> c \<notin> set (columns df)"
  show "load_and_process_data to_date df = Inl KeyError
          \<or> load_and_process_data to_date df = Inl ValueError"
  proof (cases "load_and_process_data to_date df")
    case (Inl e)
    with load_and_process_data_Inl [OF Inl] show ?thesis by blast
  next
    case (Inr df')
    from load_and_process_data_columns [OF Inr] a show ?thesis by blast
  qed
next
  assume "c \<in> {''source_mh_name'', ''master_trip_code''} \<and> c \<notin> set (columns df)"
  then show "summary_table df = Inl KeyError"
    by (auto simp: summary_table_def getcol_def)
next
  assume "c = ''actual_vendor'' \<and> c \<notin> set (columns df)"
  then show "vendor_stats df = Inl KeyError"
    by (auto simp: vendor_stats_def getcol_def)
next
  show "kpi_scorecards (without_column ''master_trip_code'' df) = kpi_scorecards df"
    by (rule kpi_scorecards_without_column) simp
next
  show "kpi_scorecards (without_column ''actual_vendor'' df) = kpi_scorecards df"
    by (rule kpi_scorecards_without_column) simp
next
  show "summary_table (without_column ''actual_vendor'' df) = summary_table df"
    by (rule summary_table_without_column) simp
qed

lemmas table_defs = summary_table_def hub_row_def group_keys_def group_rows_def
  series_mean_def np_div_def vendor_stats_def vendor_row_def kpi_scorecards_def guarded_rate_def

text \<open>
  The batch \<open>two_trips\<close> read from files that lack one column. Without \<open>trip_status\<close>
  nothing is returned. Without \<open>master_trip_code\<close> the batch is enriched and the fleet
  scorecards are computed (two trips), then the hub table raises. Without
  \<open>actual_vendor\<close> the hub table is computed as well (hubs \<open>A\<close> and \<open>B\<close>), then the vendor
  table raises.
\<close>

theorem absent_column_raises_witness:
  "load_and_process_data Some (without_column ''trip_status'' two_trips) = Inl KeyError
   \<and> map_sum id total_trips
       (kpi_scorecards (projr (load_and_process_data Some (without_column ''master_trip_code'' two_trips))))
     = Inr 2
   \<and> summary_table (projr (load_and_process_data Some (without_column ''master_trip_code'' two_trips)))
     = Inl KeyError
   \<and> map_sum id (map source_mh_name)
       (summary_table (projr (load_and_process_data Some (without_column ''actual_vendor'' two_trips))))
     = Inr [Str ''A'', Str ''B'']
   \<and> vendor_stats (projr (load_and_process_data Some (without_column ''actual_vendor'' two_trips)))
     = Inl KeyError"
proof -
  let ?d = "projr (load_and_process_data Some two_trips)"
  let ?m = "projr (load_and_process_data Some (without_column ''master_trip_code'' two_trips))"
  let ?v = "projr (load_and_process_data Some (without_column ''actual_vendor'' two_trips))"
  have c1: "''trip_status'' \<in> {''trip_date'', ''planned_vehicle_type'', ''actual_vehicle_type'',
          ''actual_billing_basis'', ''trip_status''}
      \<and> ''trip_status'' \<notin> set (columns (without_column ''trip_status'' two_trips))"
    by (simp add: without_column_def two_trips_def trip_columns_def)
  have c2: "''master_trip_code'' \<in> {''source_mh_name'', ''master_trip_code''}
      \<and> ''master_trip_code'' \<notin> set (columns ?m)"
    by (simp add: run_defs sample_defs without_column_def)
  have c3: "''actual_vendor'' = ''actual_vendor'' \<and> ''actual_vendor'' \<notin> set (columns ?v)"
    by (simp add: run_defs sample_defs without_column_def)
  have no_value_error:
    "load_and_process_data Some (without_column ''trip_status'' two_trips) \<noteq> Inl ValueError"
    by (simp add: run_defs sample_defs without_column_def)
  have m: "?m = without_column ''master_trip_code'' ?d"
    by (simp add: run_defs sample_defs without_column_def)
  have v: "?v = without_column ''actual_vendor'' ?d"
    by (simp add: run_defs sample_defs without_column_def)
  have kpi: "map_sum id total_trips (kpi_scorecards ?d) = Inr 2"
    by (simp add: run_defs table_defs sample_defs)
  have hub: "map_sum id (map source_mh_name) (summary_table ?d) = Inr [Str ''A'', Str ''B'']"
    by (simp add: run_defs table_defs sample_defs)
  note r0 = absent_column_raises
    [of "''trip_status''" "without_column ''trip_status'' two_trips" Some,
     THEN conjunct1, THEN mp, OF c1]
  have r1: "load_and_process_data Some (without_column ''trip_status'' two_trips) = Inl KeyError"
    using r0 no_value_error by simp
  note r2 = absent_column_raises
    [of "''master_trip_code''" ?m Some, THEN conjunct2, THEN conjunct1, THEN mp, OF c2]
  note r3 = absent_column_raises
    [of "''actual_vendor''" ?v Some,
     THEN conjunct2, THEN conjunct2, THEN conjunct1, THEN mp, OF c3]
  note r4 = absent_column_raises
    [of "''master_trip_code''" ?d Some,
     THEN conjunct2, THEN conjunct2, THEN conjunct2, THEN conjunct1]
  note r5 = absent_column_raises
    [of "''actual_vendor''" ?d Some,
     THEN conjunct2, THEN conjunct2, THEN conjunct2, THEN conjunct2, THEN conjunct2]
  have k: "map_sum id total_trips (kpi_scorecards ?m) = Inr 2"
    unfolding m r4 by (rule kpi)
  have h: "map_sum id (map source_mh_name) (summary_table ?v) = Inr [Str ''A'', Str ''B'']"
    unfolding v r5 by (rule hub)
  show ?thesis
    using r1 k r2 h r3 by simp
qed

text \<open>
  Claim C9 as stated fails: the second record of \<open>trips_with_gaps\<close> lacks its trip
  code and its billing basis, no exception is raised, and the hub table is produced with
  that record left out of the total of its hub.
\<close>

theorem empty_cells_are_summarised:
  "map_sum id (\<lambda>d. map_sum id (map (\<lambda>h. (source_mh_name h, Total h))) (summary_table d))
     (load_and_process_data Some trips_with_gaps)
   = Inr (Inr [(Str ''A'', 1)])"
  by (simp add: run_defs table_defs trips_with_gaps_def trip_columns_def trip_def)

section \<open>Properties of the hub table\<close>

lemma collect_map_Inr:
  "collect (map f ks) = Inr vs \<Longrightarrow> vs = map (\<lambda>k. projr (f k)) ks \<and> (\<forall>k\<in>set ks. \<not> isl (f k))"
proof (induction ks arbitrary: vs)
  case Nil
  then show ?case by simp
next
  case (Cons k ks)
  from Cons.prems obtain v vs' where
    k: "f k = Inr v" and c: "collect (map f ks) = Inr vs'" and vs: "vs = v # vs'"
    by (auto split: sum.splits)
  from Cons.IH [OF c] show ?case
    using k vs by simp
qed

lemma set_group_keys: "set (group_keys vs) = set vs - {NaN}"
  by (auto simp: group_keys_def)

lemma distinct_group_keys: "distinct (group_keys vs)"
  by (simp add: group_keys_def)

lemma length_filter_disjoint:
  "(\<And>x. \<not> (A x \<and> B x)) \<Longrightarrow>
     length (filter A xs) + length (filter B xs) = length (filter (\<lambda>x. A x \<or> B x) xs)"
  by (induction xs) auto

lemma length_filter_or_and:
  "length (filter A xs) + length (filter B xs)
     = length (filter (\<lambda>x. A x \<or> B x) xs) + length (filter (\<lambda>x. A x \<and> B x) xs)"
  by (induction xs) auto

lemma sum_group_sizes:
  "distinct ks \<Longrightarrow>
     (\<Sum>k\<leftarrow>ks. length (filter P (filter (\<lambda>r. f r = k) xs)))
       = length (filter (\<lambda>r. f r \<in> set ks \<and> P r) xs)"
proof (induction ks)
  case Nil
  then show ?case by simp
next
  case (Cons k ks)
  then have k: "k \<notin> set ks" and d: "distinct ks"
    by simp_all
  have "(\<Sum>k\<leftarrow>k # ks. length (filter P (filter (\<lambda>r. f r = k) xs)))
      = length (filter (\<lambda>r. f r = k \<and> P r) xs) + length (filter (\<lambda>r. f r \<in> set ks \<and> P r) xs)"
    using Cons.IH [OF d] by (simp add: conj_commute)
  also have "\<dots> = length (filter (\<lambda>r. (f r = k \<and> P r) \<or> (f r \<in> set ks \<and> P r)) xs)"
    using k by (intro length_filter_disjoint) auto
  also have "\<dots> = length (filter (\<lambda>r. f r \<in> set (k # ks) \<and> P r) xs)"
    by (rule arg_cong [where f = length], rule filter_cong) auto
  finally show ?case .
qed

lemma hub_row_Inr:
  assumes "hub_row df k = Inr h"
  shows "source_mh_name h = k"
    and "Total h = length (filter (\<lambda>r. r ''master_trip_code'' \<noteq> NaN)
                     (filter (\<lambda>r. r ''source_mh_name'' = k) (rows df)))"
  using assms
  by (auto simp: hub_row_def group_rows_def Let_def split: if_splits sum.splits)

lemma summary_table_Inr:
  assumes "summary_table df = Inr tbl"
  shows "map source_mh_name tbl = group_keys (map (\<lambda>r. r ''source_mh_name'') (rows df))"
    and "map Total tbl =
           map (\<lambda>k. length (filter (\<lambda>r. r ''master_trip_code'' \<noteq> NaN)
                     (filter (\<lambda>r. r ''source_mh_name'' = k) (rows df))))
               (group_keys (map (\<lambda>r. r ''source_mh_name'') (rows df)))"
proof -
  let ?keys = "group_keys (map (\<lambda>r. r ''source_mh_name'') (rows df))"
  from assms have c: "collect (map (hub_row df) ?keys) = Inr tbl"
    by (auto simp: summary_table_def getcol_def split: if_splits)
  from collect_map_Inr [OF c]
  have tbl: "tbl = map (\<lambda>k. projr (hub_row df k)) ?keys"
    and ok: "\<forall>k\<in>set ?keys. \<not> isl (hub_row df k)"
    by simp_all
  have row: "hub_row df k = Inr (projr (hub_row df k))" if "k \<in> set ?keys" for k
    using ok that by simp
  show "map source_mh_name tbl = ?keys"
    unfolding tbl using hub_row_Inr(1) [OF row] by (simp add: map_idI)
  show "map Total tbl =
           map (\<lambda>k. length (filter (\<lambda>r. r ''master_trip_code'' \<noteq> NaN)
                     (filter (\<lambda>r. r ''source_mh_name'' = k) (rows df)))) ?keys"
    unfolding tbl using hub_row_Inr(2) [OF row] by simp
qed

text \<open>
  The hub table has one row for every hub name that occurs in the batch, and the totals of
  the rows add up to the number of records that have both a hub name and a trip code.
\<close>

lemma hub_totals_filled:
  assumes "summary_table df = Inr tbl"
  shows "distinct (map source_mh_name tbl)"
    and "set (map source_mh_name tbl) = (\<lambda>r. r ''source_mh_name'') ` set (rows df) - {NaN}"
    and "sum_list (map Total tbl)
             = length (filter (\<lambda>r. r ''source_mh_name'' \<noteq> NaN \<and> r ''master_trip_code'' \<noteq> NaN)
                         (rows df))"
proof -
  let ?hubs = "map (\<lambda>r. r ''source_mh_name'') (rows df)"
  let ?P = "\<lambda>r. r ''master_trip_code'' \<noteq> NaN"
  note names = summary_table_Inr(1) [OF assms]
  note totals = summary_table_Inr(2) [OF assms]
  show "distinct (map source_mh_name tbl)"
    unfolding names by (rule distinct_group_keys)
  show "set (map source_mh_name tbl) = (\<lambda>r. r ''source_mh_name'') ` set (rows df) - {NaN}"
    unfolding names set_group_keys by simp
  have "sum_list (map Total tbl)
      = length (filter (\<lambda>r. r ''source_mh_name'' \<in> set (group_keys ?hubs) \<and> ?P r) (rows df))"
    unfolding totals using sum_group_sizes [OF distinct_group_keys] .
  also have "\<dots> = length (filter (\<lambda>r. r ''source_mh_name'' \<noteq> NaN \<and> ?P r) (rows df))"
    by (rule arg_cong [where f = length], rule filter_cong) (auto simp: set_group_keys)
  finally show "sum_list (map Total tbl)
      = length (filter (\<lambda>r. r ''source_mh_name'' \<noteq> NaN \<and> ?P r) (rows df))" .
qed

lemma summary_table_row:
  assumes "summary_table df = Inr tbl" and "h \<in> set tbl"
  shows "hub_row df (source_mh_name h) = Inr h"
proof -
  let ?keys = "group_keys (map (\<lambda>r. r ''source_mh_name'') (rows df))"
  from assms(1) have c: "collect (map (hub_row df) ?keys) = Inr tbl"
    by (auto simp: summary_table_def getcol_def split: if_splits)
  from collect_map_Inr [OF c]
  have tbl: "tbl = map (\<lambda>k. projr (hub_row df k)) ?keys"
    and ok: "\<forall>k\<in>set ?keys. \<not> isl (hub_row df k)"
    by simp_all
  from assms(2) tbl obtain k where k: "k \<in> set ?keys" and h: "h = projr (hub_row df k)"
    by auto
  from ok k h have row: "hub_row df k = Inr h"
    by simp
  from hub_row_Inr(1) [OF row] row show ?thesis
    by simp
qed

text \<open>
  Claim C7. The input of the engine is a batch in which every record carries its source
  hub name and its trip code (both are required fields). For such a batch the hub table
  is a partition of the records: every record belongs to exactly one row of the table,
  the row of its hub; the \<open>Total\<close> of a row is the number of records of its hub; and the
  totals add up to the number of records in the batch.
\<close>

theorem hub_groups_partition_batch:
  assumes "summary_table df = Inr tbl"
    and "\<forall>r\<in>set (rows df). r ''source_mh_name'' \<noteq> NaN \<and> r ''master_trip_code'' \<noteq> NaN"
  shows "(\<forall>r\<in>set (rows df). \<exists>!h. h \<in> set tbl \<and> source_mh_name h = r ''source_mh_name'')
         \<and> (\<forall>h\<in>set tbl. Total h
               = length (filter (\<lambda>r. r ''source_mh_name'' = source_mh_name h) (rows df)))
         \<and> sum_list (map Total tbl) = length (rows df)"
proof (intro conjI ballI)
  fix r
  assume r: "r \<in> set (rows df)"
  with assms(2) have "r ''source_mh_name'' \<in> (\<lambda>r. r ''source_mh_name'') ` set (rows df) - {NaN}"
    by blast
  then have "r ''source_mh_name'' \<in> set (map source_mh_name tbl)"
    unfolding hub_totals_filled(2) [OF assms(1)] .
  then obtain h where h: "h \<in> set tbl" "source_mh_name h = r ''source_mh_name''"
    by auto
  have inj: "inj_on source_mh_name (set tbl)"
    using hub_totals_filled(1) [OF assms(1)] by (simp add: distinct_map)
  show "\<exists>!h. h \<in> set tbl \<and> source_mh_name h = r ''source_mh_name''"
  proof (rule ex1I [of _ h])
    show "h \<in> set tbl \<and> source_mh_name h = r ''source_mh_name''"
      using h by simp
  next
    fix h'
    assume "h' \<in> set tbl \<and> source_mh_name h' = r ''source_mh_name''"
    then have "h' \<in> set tbl" and "source_mh_name h' = source_mh_name h"
      using h by simp_all
    with h(1) show "h' = h"
      using inj_onD [OF inj] by blast
  qed
next
  fix h
  assume h: "h \<in> set tbl"
  have all: "filter (\<lambda>r. r ''master_trip_code'' \<noteq> NaN)
               (filter (\<lambda>r. r ''source_mh_name'' = source_mh_name h) (rows df))
             = filter (\<lambda>r. r ''source_mh_name'' = source_mh_name h) (rows df)"
    using assms(2) by (intro filter_True) simp
  from hub_row_Inr(2) [OF summary_table_row [OF assms(1) h]]
  show "Total h = length (filter (\<lambda>r. r ''source_mh_name'' = source_mh_name h) (rows df))"
    unfolding all .
next
  have "filter (\<lambda>r. r ''source_mh_name'' \<noteq> NaN \<and> r ''master_trip_code'' \<noteq> NaN) (rows df)
          = rows df"
    using assms(2) by (intro filter_True) simp
  with hub_totals_filled(3) [OF assms(1)]
  show "sum_list (map Total tbl) = length (rows df)"
    by simp
qed

text \<open>
  The batch \<open>two_trips\<close>: two records, one in hub \<open>A\<close> and one in hub \<open>B\<close>; the table
  has the two rows \<open>A\<close> and \<open>B\<close> with a total of 1 each.
\<close>

theorem hub_groups_partition_batch_witness:
  "map (\<lambda>h. (source_mh_name h, Total h))
       (projr (summary_table (projr (load_and_process_data Some two_trips))))
     = [(Str ''A'', 1), (Str ''B'', 1)]
   \<and> (\<exists>!h. h \<in> set (projr (summary_table (projr (load_and_process_data Some two_trips))))
            \<and> source_mh_name h = Str ''B'')
   \<and> sum_list (map Total (projr (summary_table (projr (load_and_process_data Some two_trips)))))
       = length (rows (projr (load_and_process_data Some two_trips)))"
proof -
  let ?d = "projr (load_and_process_data Some two_trips)"
  have ok: "\<not> isl (summary_table ?d)"
    by (simp add: run_defs table_defs sample_defs)
  then have run: "summary_table ?d = Inr (projr (summary_table ?d))"
    by simp
  have filled: "\<forall>r\<in>set (rows ?d). r ''source_mh_name'' \<noteq> NaN \<and> r ''master_trip_code'' \<noteq> NaN"
    by (simp add: run_defs sample_defs)
  have shown: "map (\<lambda>h. (source_mh_name h, Total h)) (projr (summary_table ?d))
      = [(Str ''A'', 1), (Str ''B'', 1)]"
    by (simp add: run_defs table_defs sample_defs)
  have first: "rows ?d ! 0 \<in> set (rows ?d)"
    by (simp add: run_defs sample_defs)
  have hub: "(rows ?d ! 0) ''source_mh_name'' = Str ''B''"
    by (simp add: run_defs sample_defs)
  note p = hub_groups_partition_batch [OF run filled]
  note one = p [THEN conjunct1, THEN bspec, OF first]
  from shown one p [THEN conjunct2, THEN conjunct2] show ?thesis
    unfolding hub by simp
qed

section \<open>Properties of the vendor table\<close>

lemma vendor_stats_Inr:
  assumes "vendor_stats df = Inr tbl" and "v \<in> set tbl"
  shows "v = vendor_row df (actual_vendor v)"
proof -
  from assms(1) have "tbl = map (vendor_row df) (group_keys (map (\<lambda>r. r ''actual_vendor'') (rows df)))"
    by (auto simp: vendor_stats_def getcol_def split: if_splits)
  with assms(2) obtain k where "v = vendor_row df k"
    by auto
  then show ?thesis
    by (simp add: vendor_row_def Let_def)
qed

text \<open>
  Claim C10. In every row of the vendor table, \<open>Adhocs\<close> counts the vendor's records
  with billing basis \<open>Adhoc\<close>, \<open>Cancellations\<close> those with status \<open>CANCELLED\<close>,
  and \<open>Total_Failures\<close> is their sum: the number of records that are Adhoc or
  cancelled plus, once more, the number of records that are both.
\<close>

theorem total_failures_counts_adhoc_cancelled_twice:
  assumes "vendor_stats df = Inr tbl" and "v \<in> set tbl"
  shows "Adhocs v = length (filter (\<lambda>r. r ''actual_billing_basis'' = Str ''Adhoc'')
                      (filter (\<lambda>r. r ''actual_vendor'' = actual_vendor v) (rows df)))
         \<and> Cancellations v = length (filter (\<lambda>r. r ''trip_status'' = Str ''CANCELLED'')
                      (filter (\<lambda>r. r ''actual_vendor'' = actual_vendor v) (rows df)))
         \<and> Total_Failures v = Adhocs v + Cancellations v
         \<and> Total_Failures v
             = length (filter (\<lambda>r. r ''actual_billing_basis'' = Str ''Adhoc''
                                   \<or> r ''trip_status'' = Str ''CANCELLED'')
                      (filter (\<lambda>r. r ''actual_vendor'' = actual_vendor v) (rows df)))
             + length (filter (\<lambda>r. r ''actual_billing_basis'' = Str ''Adhoc''
                                   \<and> r ''trip_status'' = Str ''CANCELLED'')
                      (filter (\<lambda>r. r ''actual_vendor'' = actual_vendor v) (rows df)))"
proof -
  let ?g = "filter (\<lambda>r. r ''actual_vendor'' = actual_vendor v) (rows df)"
  note v = vendor_stats_Inr [OF assms]
  have a: "Adhocs v = length (filter (\<lambda>r. r ''actual_billing_basis'' = Str ''Adhoc'') ?g)"
    by (subst v) (simp add: vendor_row_def group_rows_def Let_def)
  have c: "Cancellations v = length (filter (\<lambda>r. r ''trip_status'' = Str ''CANCELLED'') ?g)"
    by (subst v) (simp add: vendor_row_def group_rows_def Let_def)
  have t: "Total_Failures v = Adhocs v + Cancellations v"
    by (subst (1 2 3) v) (simp add: vendor_row_def Let_def)
  have "Total_Failures v
      = length (filter (\<lambda>r. r ''actual_billing_basis'' = Str ''Adhoc''
                                   \<or> r ''trip_status'' = Str ''CANCELLED'') ?g)
      + length (filter (\<lambda>r. r ''actual_billing_basis'' = Str ''Adhoc''
                                   \<and> r ''trip_status'' = Str ''CANCELLED'') ?g)"
    unfolding t a c by (rule length_filter_or_and)
  with a c t show ?thesis by blast
qed

text \<open>Vendor \<open>V2\<close> of \<open>two_trips\<close> has one trip, Adhoc and cancelled: two failures.\<close>

theorem total_failures_counts_adhoc_cancelled_twice_witness:
  "map_sum id (map (\<lambda>v. (actual_vendor v, Adhocs v, Cancellations v, Total_Failures v)))
     (vendor_stats (projr (load_and_process_data Some two_trips)))
   = Inr [(Str ''V1'', 0, 0, 0), (Str ''V2'', 1, 1, 2)]"
proof -
  let ?d = "projr (load_and_process_data Some two_trips)"
  have ev: "map_sum id (map (\<lambda>v. (actual_vendor v, Adhocs v, Cancellations v, Total_Failures v)))
     (vendor_stats ?d) = Inr [(Str ''V1'', 0, 0, 0), (Str ''V2'', 1, 1, 2)]"
    by (simp add: run_defs table_defs sample_defs)
  then have ok: "\<not> isl (vendor_stats ?d)"
    by (cases "vendor_stats ?d") simp_all
  then have run: "vendor_stats ?d = Inr (projr (vendor_stats ?d))"
    by simp
  from ev run have "length (projr (vendor_stats ?d)) = 2"
    by (cases "vendor_stats ?d") auto
  then have mem: "projr (vendor_stats ?d) ! 1 \<in> set (projr (vendor_stats ?d))"
    by simp
  note total_failures_counts_adhoc_cancelled_twice [OF run mem, THEN conjunct2, THEN conjunct2, THEN conjunct1]
  with ev show ?thesis by simp
qed

section \<open>Rates with a zero denominator\<close>

text \<open>
  Claim C1 at two inputs. Hub \<open>B\<close> of \<open>two_trips\<close> has no Planned record, and its
  plan success rate is \<open>nan\<close>, not 0; on a batch without records the three guarded
  fleet rates are 0 and the fleet vehicle compliance is \<open>nan\<close>.
\<close>

theorem hub_without_planned_trips_has_nan_rate:
  "map_sum id (\<lambda>d. map_sum id (map (\<lambda>h. (source_mh_name h, Plan_Success_Rate h))) (summary_table d))
     (load_and_process_data Some two_trips)
   = Inr (Inr [(Str ''A'', Fin 100), (Str ''B'', Nan)])
   \<and> kpi_scorecards
       \<lparr> columns = trip_columns @ [''vehicle_match'', ''adhoc_owner'', ''cancel_owner''], rows = [] \<rparr>
     = Inr \<lparr> total_trips = 0, plan_execution = Fin 0, adhoc_rate = Fin 0, cancel_rate = Fin 0,
             vehicle_compliance = Nan \<rparr>"
  by (simp add: run_defs table_defs sample_defs)

section \<open>The order of the records\<close>

lemma length_filter_mset:
  assumes "mset xs = mset ys"
  shows "length (filter P xs) = length (filter P ys)"
proof -
  have "size (mset (filter P xs)) = size (mset (filter P ys))"
    using assms by simp
  then show ?thesis
    by (simp only: size_mset)
qed

lemma list_ex_mset:
  assumes "mset xs = mset ys"
  shows "list_ex P xs = list_ex P ys"
  using mset_eq_setD [OF assms] by (simp add: list_ex_iff)

lemma mset_nums:
  "mset (nums xs)
     = image_mset (\<lambda>c. case c of Num i \<Rightarrow> i | _ \<Rightarrow> 0)
         (filter_mset (\<lambda>c. case c of Num i \<Rightarrow> True | _ \<Rightarrow> False) (mset xs))"
  by (induction xs rule: nums.induct) simp_all

lemma nums_mset:
  assumes "mset xs = mset ys"
  shows "mset (nums xs) = mset (nums ys)"
  unfolding mset_nums assms ..

lemma series_mean_mset:
  assumes "mset xs = mset ys"
  shows "series_mean xs = series_mean ys"
proof -
  note n = nums_mset [OF assms]
  have s: "sum_list (nums xs) = sum_list (nums ys)"
    using n by (metis sum_mset_sum_list)
  have l: "length (nums xs) = length (nums ys)"
    using n by (metis size_mset)
  then have e: "(nums xs = []) = (nums ys = [])"
    by (metis length_0_conv)
  show ?thesis
    unfolding series_mean_def list_ex_mset [OF assms] s l e ..
qed

lemma inj_cell_key: "inj cell_key"
proof (rule injI)
  fix x y
  assume "cell_key x = cell_key y"
  then show "x = y"
    by (cases x; cases y) simp_all
qed

lemma group_keys_set:
  assumes "set vs = set ws"
  shows "group_keys vs = group_keys ws"
proof -
  let ?xs = "remdups (filter (\<lambda>v. v \<noteq> NaN) vs)"
  let ?ys = "remdups (filter (\<lambda>v. v \<noteq> NaN) ws)"
  have "set (filter (\<lambda>v. v \<noteq> NaN) vs) = set (filter (\<lambda>v. v \<noteq> NaN) ws)"
    using assms by simp
  then have "mset ?xs = mset ?ys"
    by (simp only: set_eq_iff_mset_remdups_eq)
  then have m: "mset ?xs = mset (sort_key cell_key ?ys)"
    by simp
  have i: "inj_on cell_key (set ?xs)"
    using inj_cell_key by (rule inj_on_subset) simp
  have "sort_key cell_key ?xs = sort_key cell_key ?ys"
    using m i by (rule sort_key_inj_key_eq) simp
  then show ?thesis
    by (simp add: group_keys_def)
qed

lemma group_rows_mset:
  assumes "mset (rows df') = mset (rows df)"
  shows "mset (group_rows df' c k) = mset (group_rows df c k)"
  using assms by (simp add: group_rows_def)

lemma hub_row_mset:
  assumes "columns df' = columns df" and "mset (rows df') = mset (rows df)"
  shows "hub_row df' k = hub_row df k"
proof -
  note g = group_rows_mset [OF assms(2), of "''source_mh_name''" k]
  have m: "series_mean (map (\<lambda>r. r ''vehicle_match'') (group_rows df' ''source_mh_name'' k))
         = series_mean (map (\<lambda>r. r ''vehicle_match'') (group_rows df ''source_mh_name'' k))"
    by (rule series_mean_mset) (simp add: g)
  have c: "length (filter P (group_rows df' ''source_mh_name'' k))
         = length (filter P (group_rows df ''source_mh_name'' k))" for P
    using g by (rule length_filter_mset)
  show ?thesis
    unfolding hub_row_def Let_def assms(1) m c ..
qed

lemma vendor_row_mset:
  assumes "mset (rows df') = mset (rows df)"
  shows "vendor_row df' k = vendor_row df k"
proof -
  note g = group_rows_mset [OF assms, of "''actual_vendor''" k]
  have c: "length (filter P (group_rows df' ''actual_vendor'' k))
         = length (filter P (group_rows df ''actual_vendor'' k))" for P
    using g by (rule length_filter_mset)
  show ?thesis
    unfolding vendor_row_def Let_def c ..
qed

lemma column_values_mset:
  assumes "mset (rows df') = mset (rows df)"
  shows "mset (map (\<lambda>r. r c) (rows df')) = mset (map (\<lambda>r. r c) (rows df))"
  using assms by simp

text \<open>
  Claim C8. Two batches with the same columns and the same records in any order have the
  same fleet scorecards, the same hub table and the same vendor table (the tables are
  equal row for row, hence as sets of rows, and raise the same exception when they
  raise).
\<close>

theorem summaries_ignore_record_order:
  assumes "columns df' = columns df" and "mset (rows df') = mset (rows df)"
  shows "kpi_scorecards df' = kpi_scorecards df
         \<and> summary_table df' = summary_table df
         \<and> vendor_stats df' = vendor_stats df"
proof -
  have len: "length (filter P (rows df')) = length (filter P (rows df))" for P
    using assms(2) by (rule length_filter_mset)
  have n: "length (rows df') = length (rows df)"
    using assms(2) by (metis size_mset)
  have col: "set (map (\<lambda>r. r c) (rows df')) = set (map (\<lambda>r. r c) (rows df))" for c
    using column_values_mset [OF assms(2)] by (rule mset_eq_setD)
  have keys: "group_keys (map (\<lambda>r. r c) (rows df')) = group_keys (map (\<lambda>r. r c) (rows df))" for c
    using col by (rule group_keys_set)
  have mean: "series_mean (map (\<lambda>r. r c) (rows df')) = series_mean (map (\<lambda>r. r c) (rows df))" for c
    using column_values_mset [OF assms(2)] by (rule series_mean_mset)
  have k: "kpi_scorecards df' = kpi_scorecards df"
    by (simp add: kpi_scorecards_def getcol_def Let_def assms(1) len n mean)
  have hub: "hub_row df' = hub_row df"
    using hub_row_mset [OF assms] by (rule ext)
  have s: "summary_table df' = summary_table df"
    by (simp add: summary_table_def getcol_def assms(1) keys hub)
  have ven: "vendor_row df' = vendor_row df"
    using vendor_row_mset [OF assms(2)] by (rule ext)
  have v: "vendor_stats df' = vendor_stats df"
    by (simp add: vendor_stats_def getcol_def assms(1) keys ven)
  show ?thesis
    using k s v by blast
qed

text \<open>The enriched batch \<open>two_trips\<close> and the same batch with its records reversed.\<close>

theorem summaries_ignore_record_order_witness:
  "\<not> isl (kpi_scorecards (projr (load_and_process_data Some two_trips)))
   \<and> \<not> isl (summary_table (projr (load_and_process_data Some two_trips)))
   \<and> \<not> isl (vendor_stats (projr (load_and_process_data Some two_trips)))
   \<and> kpi_scorecards (projr (load_and_process_data Some two_trips)
                       \<lparr> rows := rev (rows (projr (load_and_process_data Some two_trips))) \<rparr>)
       = kpi_scorecards (projr (load_and_process_data Some two_trips))
   \<and> summary_table (projr (load_and_process_data Some two_trips)
                       \<lparr> rows := rev (rows (projr (load_and_process_data Some two_trips))) \<rparr>)
       = summary_table (projr (load_and_process_data Some two_trips))
   \<and> vendor_stats (projr (load_and_process_data Some two_trips)
                       \<lparr> rows := rev (rows (projr (load_and_process_data Some two_trips))) \<rparr>)
       = vendor_stats (projr (load_and_process_data Some two_trips))"
proof -
  let ?d = "projr (load_and_process_data Some two_trips)"
  let ?d' = "?d \<lparr> rows := rev (rows ?d) \<rparr>"
  have ok: "\<not> isl (kpi_scorecards ?d)" "\<not> isl (summary_table ?d)" "\<not> isl (vendor_stats ?d)"
    by (simp_all add: run_defs table_defs sample_defs)
  have c: "columns ?d' = columns ?d"
    by simp
  have m: "mset (rows ?d') = mset (rows ?d)"
    by simp
  show ?thesis
    using ok summaries_ignore_record_order [OF c m] by blast
qed

section \<open>The order of the rows shown\<close>













end
